theory Spec2Isabelle
  imports Complex_Main
begin

section \<open>Grid capacity analysis (pssetools): data model\<close>

text \<open>
  The Python sources \<open>capacity_analysis.py\<close> and \<open>subsystems.py\<close> are embedded
  function by function. A Python float is read as the real number it denotes and a Python
  complex number as a \<open>complex\<close>. Comparisons of floats are exact. The rounded operations
  that the bisection search and the upper limits compute with are parameters (the record
  \<open>float_arith\<close> below), so that nothing proved about the search rests on arithmetic being
  exact. The sums of \<open>bus_actual_load_mva\<close> are written with the exact addition: which loads
  are summed does not depend on rounding.
\<close>

subsection \<open>Values of the modules that are not among the sources\<close>

text \<open>
  Modelled from the spec: the \<open>Violations\<close> flag set is declared in
  \<open>violations_analysis\<close>, which is not among the sources. A value is the set of raised
  flags, encoded as a natural number; the empty set is \<open>NO_VIOLATIONS\<close>.
\<close>

type_synonym violations = nat

definition NO_VIOLATIONS :: violations where
  "NO_VIOLATIONS = 0"

text \<open>
  The keyword dictionaries handed through to the solver and to the violation classifier
  (\<open>solver_opts\<close>, and \<open>dataclasses.asdict\<close> of a \<open>ViolationsLimits\<close>).
\<close>

type_synonym solver_opts = "(string \<times> int) list"
type_synonym violations_limits = "(string \<times> real) list"

subsection \<open>Records of \<open>subsystems.py\<close>\<close>

record branch =
  from_number :: int
  to_number :: int
  branch_id :: string

record raw_branches =
  rb_from_number :: "int list"
  rb_to_number :: "int list"
  rb_branch_id :: "string list"

record bus =
  number :: int
  ex_name :: string

record raw_buses =
  rbus_number :: "int list"
  rbus_ex_name :: "string list"

record load =
  load_number :: int
  load_ex_name :: string
  load_id :: string
  mva_act :: complex

record raw_loads =
  rl_number :: "int list"
  rl_ex_name :: "string list"
  rl_load_id :: "string list"
  rl_mva_act :: "complex list"

text \<open>
  Modelled from the spec: \<open>Machine\<close> and \<open>Trafo\<close> are imported from \<open>subsystems\<close> but
  their declarations are not among the sources. A machine carries its owning bus number and
  its complex generation \<open>pq_gen\<close> (the two attributes \<open>bus_actual_gen_mva\<close> reads); a
  transformer carries the identity of a branch.
\<close>

record machine =
  machine_number :: int
  pq_gen :: complex

record trafo =
  trafo_from_number :: int
  trafo_to_number :: int
  trafo_id :: string

text \<open>
  Modelled from the spec: \<open>ContingencyScenario\<close> and \<open>LimitingFactor\<close> are declared in
  \<open>contingency_analysis\<close>, which is not among the sources. A scenario is the pair of
  non-critical branches and non-critical transformers; a limiting factor pairs a violations
  value \<open>v\<close> with an optional reference \<open>ss\<close> to the element whose outage produced it.
\<close>

record contingency_scenario =
  cs_branches :: "branch list"
  cs_trafos :: "trafo list"

datatype subsystem = SS_Branch branch | SS_Trafo trafo

record limiting_factor =
  v :: violations
  ss :: "subsystem option"

subsection \<open>Exceptions and programs\<close>

text \<open>
  \<open>RuntimeError\<close> carries its message and, for the base case message, the violations value
  formatted into it. \<open>ExternalError\<close> stands for whatever a call into the PSSE wrappers raises.
\<close>

datatype error =
    RuntimeError string "violations option"
  | ValueError
  | IndexError
  | AttributeError
  | ExternalError nat

text \<open>
  A statement sequence over a state \<open>'s\<close>: it returns a value or raises, and in both cases
  leaves a state behind (a Python exception does not undo the mutations made before it).
\<close>

type_synonym ('s, 'a) prog = "'s \<Rightarrow> (error + 'a) \<times> 's"

definition ret :: "'a \<Rightarrow> ('s, 'a) prog" where
  "ret a = (\<lambda>s. (Inr a, s))"

definition raise :: "error \<Rightarrow> ('s, 'a) prog" where
  "raise e = (\<lambda>s. (Inl e, s))"

definition pbind :: "('s, 'a) prog \<Rightarrow> ('a \<Rightarrow> ('s, 'b) prog) \<Rightarrow> ('s, 'b) prog" where
  "pbind m f = (\<lambda>s. case m s of (Inl e, s') \<Rightarrow> (Inl e, s') | (Inr a, s') \<Rightarrow> f a s')"

text \<open>Python indexing \<open>xs[i]\<close> for \<open>i \<ge> 0\<close>: out of range raises \<open>IndexError\<close>.\<close>

definition py_index :: "'a list \<Rightarrow> nat \<Rightarrow> error + 'a" where
  "py_index xs i = (if i < length xs then Inr (xs ! i) else Inl IndexError)"

subsection \<open>\<open>Loads\<close>: the generator over the parallel arrays\<close>

text \<open>
  \<open>Loads.__iter__\<close> yields, for each index below \<open>len(number)\<close>, the load assembled from
  the four arrays; an array shorter than \<open>number\<close> raises \<open>IndexError\<close> at that index.
  The generator is the list of its items, an item being a load or the exception raised.
\<close>

definition Loads_item :: "raw_loads \<Rightarrow> nat \<Rightarrow> error + load" where
  "Loads_item raw load_idx =
     (case py_index (rl_number raw) load_idx of Inl e \<Rightarrow> Inl e | Inr n \<Rightarrow>
     (case py_index (rl_ex_name raw) load_idx of Inl e \<Rightarrow> Inl e | Inr nm \<Rightarrow>
     (case py_index (rl_load_id raw) load_idx of Inl e \<Rightarrow> Inl e | Inr i \<Rightarrow>
     (case py_index (rl_mva_act raw) load_idx of Inl e \<Rightarrow> Inl e | Inr p \<Rightarrow>
        Inr \<lparr>load_number = n, load_ex_name = nm, load_id = i, mva_act = p\<rparr>))))"

definition Loads_iter :: "raw_loads \<Rightarrow> (error + load) list" where
  "Loads_iter raw = map (Loads_item raw) [0..<length (rl_number raw)]"

subsection \<open>The persistent loads cursor of \<open>CapacityAnalyser\<close>\<close>

text \<open>
  The three attributes \<open>_loads_iterator\<close>, \<open>_loads_available\<close> and \<open>_load\<close>. \<open>_load\<close> is
  not assigned when the first \<open>next\<close> raises \<open>StopIteration\<close>, hence an option; reading
  it unassigned raises \<open>AttributeError\<close>.
\<close>

record loads_cursor =
  loads_iterator :: "(error + load) list"
  loads_available :: bool
  cur_load :: "load option"

text \<open>
  \<open>try: self._load = next(self._loads_iterator) except StopIteration: self._loads_available = False\<close>.
  An exception other than \<open>StopIteration\<close> raised inside the generator propagates; the
  generator is finished afterwards.
\<close>

definition advance_load :: "(loads_cursor, unit) prog" where
  "advance_load c =
     (case loads_iterator c of
        [] \<Rightarrow> (Inr (), c\<lparr>loads_available := False\<rparr>)
      | Inl e # rest \<Rightarrow> (Inl e, c\<lparr>loads_iterator := []\<rparr>)
      | Inr l # rest \<Rightarrow> (Inr (), c\<lparr>loads_iterator := rest, cur_load := Some l\<rparr>))"

text \<open>Lines 104 to 109 of \<open>__init__\<close>.\<close>

definition init_loads_cursor :: "(error + load) list \<Rightarrow> (error + unit) \<times> loads_cursor" where
  "init_loads_cursor it =
     advance_load \<lparr>loads_iterator = it, loads_available = True, cur_load = None\<rparr>"

text \<open>
  The loop of \<open>bus_actual_load_mva\<close>, with the accumulator \<open>actual_load_mva\<close> as argument.
  Each round consumes one item of the iterator or clears \<open>_loads_available\<close>.
\<close>

function bus_actual_load_loop :: "int \<Rightarrow> complex \<Rightarrow> (loads_cursor, complex) prog" where
  "bus_actual_load_loop bus_number actual_load_mva c =
     (if \<not> loads_available c then (Inr actual_load_mva, c)
      else case cur_load c of
        None \<Rightarrow> (Inl AttributeError, c)
      | Some l \<Rightarrow>
          if load_number l \<le> bus_number then
            (let acc = (if load_number l = bus_number then actual_load_mva + mva_act l
                        else actual_load_mva)
             in case advance_load c of
                  (Inl e, c') \<Rightarrow> (Inl e, c')
                | (Inr u, c') \<Rightarrow> bus_actual_load_loop bus_number acc c')
          else (Inr actual_load_mva, c))"
  by pat_completeness auto
termination
  by (relation "measure (\<lambda>(n, a, c). length (loads_iterator c) + (if loads_available c then 1 else 0))")
     (auto simp: advance_load_def split: list.splits sum.splits)

definition bus_actual_load_mva :: "int \<Rightarrow> (loads_cursor, complex) prog" where
  "bus_actual_load_mva bus_number = bus_actual_load_loop bus_number 0"

declare bus_actual_load_loop.simps [simp del]

text \<open>
  The loads still ahead of the cursor (the current one first), and the well-formedness of
  a cursor: \<open>_load\<close> is assigned whenever \<open>_loads_available\<close> holds, and no item of the
  generator raises.
\<close>

definition loads_of :: "(error + load) list \<Rightarrow> load list" where
  "loads_of it = concat (map (\<lambda>x. case x of Inl e \<Rightarrow> [] | Inr l \<Rightarrow> [l]) it)"

definition pending :: "loads_cursor \<Rightarrow> load list" where
  "pending c =
     (if loads_available c
      then (case cur_load c of None \<Rightarrow> [] | Some l \<Rightarrow> [l]) @ loads_of (loads_iterator c)
      else [])"

definition cursor_ok :: "loads_cursor \<Rightarrow> bool" where
  "cursor_ok c =
     ((loads_available c \<longrightarrow> cur_load c \<noteq> None) \<and> list_all (\<lambda>x. \<not> isl x) (loads_iterator c))"

text \<open>The sum of \<open>mva_act\<close> over the loads of a list whose bus number is \<open>n\<close>.\<close>

definition bus_total :: "load list \<Rightarrow> int \<Rightarrow> complex" where
  "bus_total ls n = sum_list (map mva_act (filter (\<lambda>l. load_number l = n) ls))"

text \<open>A sequence of queries on the one cursor, as the bus sweep issues them.\<close>

fun query_loads :: "int list \<Rightarrow> (loads_cursor, complex list) prog" where
  "query_loads [] c = (Inr [], c)"
| "query_loads (n # ns) c =
     (case bus_actual_load_mva n c of
        (Inl e, c') \<Rightarrow> (Inl e, c')
      | (Inr p, c') \<Rightarrow>
          (case query_loads ns c' of
             (Inl e, c'') \<Rightarrow> (Inl e, c'')
           | (Inr ps, c'') \<Rightarrow> (Inr (p # ps), c'')))"

text \<open>The cursor \<open>__init__\<close> builds over a list of loads, and the cursor after a run of queries.\<close>

definition cursor_of :: "load list \<Rightarrow> loads_cursor" where
  "cursor_of ls = snd (init_loads_cursor (map Inr ls))"

definition cursor_after :: "int list \<Rightarrow> load list \<Rightarrow> loads_cursor" where
  "cursor_after qs ls = snd (query_loads qs (cursor_of ls))"

text \<open>The loads of the streaming aggregation example: \<open>[(1,5+0j), (1,3+0j), (4,2+0j), (9,1+0j)]\<close>.\<close>

definition spec_loads :: "load list" where
  "spec_loads =
     [\<lparr>load_number = 1, load_ex_name = ''A'', load_id = ''1'', mva_act = 5\<rparr>,
      \<lparr>load_number = 1, load_ex_name = ''A'', load_id = ''2'', mva_act = 3\<rparr>,
      \<lparr>load_number = 4, load_ex_name = ''B'', load_id = ''1'', mva_act = 2\<rparr>,
      \<lparr>load_number = 9, load_ex_name = ''C'', load_id = ''1'', mva_act = 1\<rparr>]"

section \<open>The interface to PSSE and to the modules that are not among the sources\<close>

text \<open>
  \<open>wrapped_funcs\<close> (imported as \<open>wf\<close>) wraps the PSSE API; it is not among the sources.
  Each function used by the sources is a parameter: a program over the network model \<open>'n\<close>
  that PSSE holds, which may raise. The array readers return the list of arrays of which the
  sources take element \<open>[0]\<close>.
\<close>

record 'n wrapped_funcs =
  open_case :: "string \<Rightarrow> ('n, unit) prog"
  is_solved :: "('n, bool) prog"
  brnint :: "int \<Rightarrow> int \<Rightarrow> string \<Rightarrow> string \<Rightarrow> ('n, int) prog"
  branch_chng_3 :: "int \<Rightarrow> int \<Rightarrow> string \<Rightarrow> int \<Rightarrow> ('n, unit) prog"
  abrnint :: "string \<Rightarrow> ('n, int list list) prog"
  abrnchar :: "string \<Rightarrow> ('n, string list list) prog"
  abusint :: "string \<Rightarrow> ('n, int list list) prog"
  abuschar :: "string \<Rightarrow> ('n, string list list) prog"
  aloadint :: "string \<Rightarrow> ('n, int list list) prog"
  aloadchar :: "string \<Rightarrow> ('n, string list list) prog"
  aloadcplx :: "string \<Rightarrow> ('n, complex list list) prog"
  load_data_6 :: "int \<Rightarrow> string \<Rightarrow> ('n, unit) prog"
  purgload :: "int \<Rightarrow> string \<Rightarrow> ('n, unit) prog"
  load_chng_6 :: "int \<Rightarrow> string \<Rightarrow> real list \<Rightarrow> ('n, unit) prog"

text \<open>
  The functions imported from \<open>violations_analysis\<close> and \<open>contingency_analysis\<close>, with the
  limits given as the keyword dictionary the sources pass (empty when the limits are \<open>None\<close>).
\<close>

record 'n analysis_funcs =
  run_solver :: "bool \<Rightarrow> solver_opts \<Rightarrow> ('n, unit) prog"
  check_violations_fn :: "violations_limits \<Rightarrow> bool \<Rightarrow> solver_opts \<Rightarrow> ('n, violations) prog"
  get_contingency_limiting_factor ::
    "contingency_scenario \<Rightarrow> violations_limits \<Rightarrow> bool \<Rightarrow> ('n, limiting_factor) prog"
  reset_count :: "('n, unit) prog"

text \<open>
  The names \<open>capacity_analysis\<close> imports from \<open>subsystems\<close> that the \<open>subsystems.py\<close> among
  the sources does not define: the generators \<open>Machines()\<close> and \<open>Trafos()\<close> (as their items),
  \<open>Trafo.is_enabled\<close>, the context manager \<open>disable_trafo\<close> (applied to the body of its
  \<open>with\<close> statement, which receives the value bound by \<open>as\<close>), and \<open>TemporaryBusMachine\<close>
  with an object state \<open>'m\<close>.
\<close>

record ('n, 'm) absent_subsystems =
  Machines :: "('n, (error + machine) list) prog"
  Trafos :: "('n, (error + trafo) list) prog"
  trafo_is_enabled :: "trafo \<Rightarrow> ('n, bool) prog"
  disable_trafo :: "trafo \<Rightarrow> (bool option \<Rightarrow> ('n, bool option) prog) \<Rightarrow> ('n, bool option) prog"
  TemporaryBusMachine :: "bus \<Rightarrow> 'm"
  tbm_enter :: "bus \<Rightarrow> ('m \<times> 'n, unit) prog"
  tbm_exit :: "bus \<Rightarrow> ('m \<times> 'n, unit) prog"
  tbm_call :: "bus \<Rightarrow> complex \<Rightarrow> ('m \<times> 'n, unit) prog"

text \<open>
  The floating point operations of the platform, on the reals that floats denote: complex
  addition and division (\<open>(lower + upper) / 2\<close>), float subtraction
  (\<open>upper.real - lower.real\<close>) and multiplication, \<open>math.tan\<close> and \<open>math.acos\<close>. Each
  returns the rounded result, whatever the rounding, overflow included.
\<close>

record float_arith =
  c_add :: "complex \<Rightarrow> complex \<Rightarrow> complex"
  c_div :: "complex \<Rightarrow> complex \<Rightarrow> complex"
  f_sub :: "real \<Rightarrow> real \<Rightarrow> real"
  f_mul :: "real \<Rightarrow> real \<Rightarrow> real"
  f_tan :: "real \<Rightarrow> real"
  f_acos :: "real \<Rightarrow> real"

record ('n, 'm) psse =
  wf :: "'n wrapped_funcs"
  va :: "'n analysis_funcs"
  sub :: "('n, 'm) absent_subsystems"
  fp :: float_arith

section \<open>Control structures\<close>

text \<open>\<open>try: m finally: fin\<close>. An exception raised by \<open>fin\<close> replaces the outcome of \<open>m\<close>.\<close>

definition try_finally :: "('s, 'a) prog \<Rightarrow> ('s, unit) prog \<Rightarrow> ('s, 'a) prog" where
  "try_finally m fin =
     (\<lambda>s. case m s of (r, s') \<Rightarrow>
        (case fin s' of (Inl e, s'') \<Rightarrow> (Inl e, s'') | (Inr u, s'') \<Rightarrow> (r, s'')))"

text \<open>
  \<open>with cm: body\<close> for a context manager given by its \<open>__enter__\<close> and an \<open>__exit__\<close> that
  returns \<open>None\<close>: \<open>__exit__\<close> is not called when \<open>__enter__\<close> raises, is called on every
  way out of the body, and does not suppress the exception of the body.
\<close>

definition with_cm :: "('s, unit) prog \<Rightarrow> ('s, unit) prog \<Rightarrow> ('s, 'a) prog \<Rightarrow> ('s, 'a) prog" where
  "with_cm enter exit body = pbind enter (\<lambda>u. try_finally body exit)"

text \<open>A program on the network run beside an object, on the object alone, and on a local object.\<close>

definition on_net :: "('n, 'a) prog \<Rightarrow> ('o \<times> 'n, 'a) prog" where
  "on_net m = (\<lambda>(ob, n). case m n of (r, n') \<Rightarrow> (r, (ob, n')))"

definition on_obj :: "('o, 'a) prog \<Rightarrow> ('o \<times> 'n, 'a) prog" where
  "on_obj m = (\<lambda>(ob, n). case m ob of (r, ob') \<Rightarrow> (r, (ob', n)))"

definition local_obj :: "'o \<Rightarrow> ('o \<times> 'n, 'a) prog \<Rightarrow> ('c \<times> 'n, 'a) prog" where
  "local_obj ob m = (\<lambda>(c, n). case m (ob, n) of (r, (ob', n')) \<Rightarrow> (r, (c, n')))"

text \<open>Truth value of what an \<open>as\<close> clause bound: \<open>None\<close> is false.\<close>

definition truthy :: "bool option \<Rightarrow> bool" where
  "truthy x = (case x of None \<Rightarrow> False | Some b \<Rightarrow> b)"

text \<open>
  \<open>tuple(x for x in items if f(x))\<close> over a generator: the items are produced one by one,
  and the first exception, of the generator or of \<open>f\<close>, ends the comprehension.
\<close>

fun filter_p :: "('a \<Rightarrow> ('s, bool) prog) \<Rightarrow> (error + 'a) list \<Rightarrow> ('s, 'a list) prog" where
  "filter_p f [] s = (Inr [], s)"
| "filter_p f (Inl e # xs) s = (Inl e, s)"
| "filter_p f (Inr x # xs) s =
     (case f x s of
        (Inl e, s') \<Rightarrow> (Inl e, s')
      | (Inr b, s') \<Rightarrow>
          (case filter_p f xs s' of
             (Inl e, s'') \<Rightarrow> (Inl e, s'')
           | (Inr ys, s'') \<Rightarrow> (Inr (if b then x # ys else ys), s'')))"

text \<open>\<open>tuple(g(x) for x in items if c(x))\<close> with a pure condition \<open>c\<close>.\<close>

fun map_filter_p :: "('a \<Rightarrow> bool) \<Rightarrow> ('a \<Rightarrow> ('s, 'b) prog) \<Rightarrow> (error + 'a) list \<Rightarrow> ('s, 'b list) prog" where
  "map_filter_p c g [] s = (Inr [], s)"
| "map_filter_p c g (Inl e # xs) s = (Inl e, s)"
| "map_filter_p c g (Inr x # xs) s =
     (if c x then
        (case g x s of
           (Inl e, s') \<Rightarrow> (Inl e, s')
         | (Inr y, s') \<Rightarrow>
             (case map_filter_p c g xs s' of
                (Inl e, s'') \<Rightarrow> (Inl e, s'')
              | (Inr ys, s'') \<Rightarrow> (Inr (y # ys), s'')))
      else map_filter_p c g xs s)"

section \<open>\<open>subsystems.py\<close>\<close>

subsection \<open>Branches\<close>

definition Branch_is_enabled :: "('n, 'm) psse \<Rightarrow> branch \<Rightarrow> ('n, bool) prog" where
  "Branch_is_enabled env b =
     pbind (brnint (wf env) (from_number b) (to_number b) (branch_id b) ''STATUS'')
       (\<lambda>status. ret (status \<noteq> 0))"

definition Branches_init :: "('n, 'm) psse \<Rightarrow> ('n, raw_branches) prog" where
  "Branches_init env =
     pbind (abrnint (wf env) ''fromNumber'') (\<lambda>a.
     case py_index a 0 of Inl e \<Rightarrow> raise e | Inr fs \<Rightarrow>
     pbind (abrnint (wf env) ''toNumber'') (\<lambda>b.
     case py_index b 0 of Inl e \<Rightarrow> raise e | Inr ts \<Rightarrow>
     pbind (abrnchar (wf env) ''id'') (\<lambda>c.
     case py_index c 0 of Inl e \<Rightarrow> raise e | Inr ids \<Rightarrow>
       ret \<lparr>rb_from_number = fs, rb_to_number = ts, rb_branch_id = ids\<rparr>)))"

definition Branches_item :: "raw_branches \<Rightarrow> nat \<Rightarrow> error + branch" where
  "Branches_item raw branch_idx =
     (case py_index (rb_from_number raw) branch_idx of Inl e \<Rightarrow> Inl e | Inr f \<Rightarrow>
     (case py_index (rb_to_number raw) branch_idx of Inl e \<Rightarrow> Inl e | Inr t \<Rightarrow>
     (case py_index (rb_branch_id raw) branch_idx of Inl e \<Rightarrow> Inl e | Inr i \<Rightarrow>
        Inr \<lparr>from_number = f, to_number = t, branch_id = i\<rparr>)))"

definition Branches_iter :: "raw_branches \<Rightarrow> (error + branch) list" where
  "Branches_iter raw = map (Branches_item raw) [0..<length (rb_from_number raw)]"

text \<open>
  The generator context manager \<open>disable_branch\<close>, applied to the body of its \<open>with\<close>
  statement. The bare \<open>yield\<close> hands \<open>None\<close> to the \<open>as\<close> clause. The first status change
  and the body are inside the \<open>try\<close>; the \<open>finally\<close> clause sets the status to 1.
\<close>

definition disable_branch ::
  "('n, 'm) psse \<Rightarrow> branch \<Rightarrow> (bool option \<Rightarrow> ('n, 'a) prog) \<Rightarrow> ('n, 'a) prog" where
  "disable_branch env b body =
     try_finally
       (pbind (branch_chng_3 (wf env) (from_number b) (to_number b) (branch_id b) 0)
          (\<lambda>u. body None))
       (branch_chng_3 (wf env) (from_number b) (to_number b) (branch_id b) 1)"

subsection \<open>Buses and loads\<close>

definition Buses_init :: "('n, 'm) psse \<Rightarrow> ('n, raw_buses) prog" where
  "Buses_init env =
     pbind (abusint (wf env) ''number'') (\<lambda>a.
     case py_index a 0 of Inl e \<Rightarrow> raise e | Inr ns \<Rightarrow>
     pbind (abuschar (wf env) ''exName'') (\<lambda>b.
     case py_index b 0 of Inl e \<Rightarrow> raise e | Inr nms \<Rightarrow>
       ret \<lparr>rbus_number = ns, rbus_ex_name = nms\<rparr>))"

definition Buses_item :: "raw_buses \<Rightarrow> nat \<Rightarrow> error + bus" where
  "Buses_item raw bus_idx =
     (case py_index (rbus_number raw) bus_idx of Inl e \<Rightarrow> Inl e | Inr n \<Rightarrow>
     (case py_index (rbus_ex_name raw) bus_idx of Inl e \<Rightarrow> Inl e | Inr nm \<Rightarrow>
        Inr \<lparr>number = n, ex_name = nm\<rparr>))"

definition Buses_iter :: "raw_buses \<Rightarrow> (error + bus) list" where
  "Buses_iter raw = map (Buses_item raw) [0..<length (rbus_number raw)]"

definition Loads_init :: "('n, 'm) psse \<Rightarrow> ('n, raw_loads) prog" where
  "Loads_init env =
     pbind (aloadint (wf env) ''number'') (\<lambda>a.
     case py_index a 0 of Inl e \<Rightarrow> raise e | Inr ns \<Rightarrow>
     pbind (aloadchar (wf env) ''exName'') (\<lambda>b.
     case py_index b 0 of Inl e \<Rightarrow> raise e | Inr nms \<Rightarrow>
     pbind (aloadchar (wf env) ''id'') (\<lambda>c.
     case py_index c 0 of Inl e \<Rightarrow> raise e | Inr ids \<Rightarrow>
     pbind (aloadcplx (wf env) ''mvaAct'') (\<lambda>d.
     case py_index d 0 of Inl e \<Rightarrow> raise e | Inr ps \<Rightarrow>
       ret \<lparr>rl_number = ns, rl_ex_name = nms, rl_load_id = ids, rl_mva_act = ps\<rparr>))))"

subsection \<open>\<open>TemporaryBusLoad\<close>\<close>

text \<open>
  The bus is fixed by \<open>__init__\<close> and is an argument of the methods; the object state is the
  flag \<open>_context_manager_is_active\<close>.
\<close>

record temporary_bus_load =
  context_manager_is_active :: bool

definition TEMP_LOAD_ID :: string where
  "TEMP_LOAD_ID = ''Tm''"

definition TemporaryBusLoad :: "bus \<Rightarrow> temporary_bus_load" where
  "TemporaryBusLoad b = \<lparr>context_manager_is_active = False\<rparr>"

definition set_active :: "bool \<Rightarrow> (temporary_bus_load, unit) prog" where
  "set_active a = (\<lambda>t. (Inr (), t\<lparr>context_manager_is_active := a\<rparr>))"

definition tbl_enter :: "('n, 'm) psse \<Rightarrow> bus \<Rightarrow> (temporary_bus_load \<times> 'n, unit) prog" where
  "tbl_enter env b =
     pbind (on_net (load_data_6 (wf env) (number b) TEMP_LOAD_ID)) (\<lambda>u. on_obj (set_active True))"

definition tbl_exit :: "('n, 'm) psse \<Rightarrow> bus \<Rightarrow> (temporary_bus_load \<times> 'n, unit) prog" where
  "tbl_exit env b =
     pbind (on_net (purgload (wf env) (number b) TEMP_LOAD_ID)) (\<lambda>u. on_obj (set_active False))"

definition usage_error :: error where
  "usage_error =
     RuntimeError
       (''Load modification without context manager is prohibited. '' @
        ''Use `with TemporaryBusLoad(bus) as temp_load:`.'') None"

definition tbl_call :: "('n, 'm) psse \<Rightarrow> bus \<Rightarrow> complex \<Rightarrow> (temporary_bus_load \<times> 'n, unit) prog" where
  "tbl_call env b new_load =
     (\<lambda>(t, n).
        if \<not> context_manager_is_active t then (Inl usage_error, (t, n))
        else on_net (load_chng_6 (wf env) (number b) TEMP_LOAD_ID [Re new_load, Im new_load]) (t, n))"

section \<open>\<open>capacity_analysis.py\<close>\<close>

subsection \<open>The machines cursor and \<open>bus_actual_gen_mva\<close>\<close>

record machines_cursor =
  machines_iterator :: "(error + machine) list"
  machines_available :: bool
  cur_machine :: "machine option"

definition advance_machine :: "(machines_cursor, unit) prog" where
  "advance_machine c =
     (case machines_iterator c of
        [] \<Rightarrow> (Inr (), c\<lparr>machines_available := False\<rparr>)
      | Inl e # rest \<Rightarrow> (Inl e, c\<lparr>machines_iterator := []\<rparr>)
      | Inr m # rest \<Rightarrow> (Inr (), c\<lparr>machines_iterator := rest, cur_machine := Some m\<rparr>))"

definition init_machines_cursor :: "(error + machine) list \<Rightarrow> (error + unit) \<times> machines_cursor" where
  "init_machines_cursor it =
     advance_machine \<lparr>machines_iterator = it, machines_available = True, cur_machine = None\<rparr>"

function bus_actual_gen_loop :: "int \<Rightarrow> complex \<Rightarrow> (machines_cursor, complex) prog" where
  "bus_actual_gen_loop bus_number actual_gen_mva c =
     (if \<not> machines_available c then (Inr actual_gen_mva, c)
      else case cur_machine c of
        None \<Rightarrow> (Inl AttributeError, c)
      | Some m \<Rightarrow>
          if machine_number m \<le> bus_number then
            (let acc = (if machine_number m = bus_number then actual_gen_mva + pq_gen m
                        else actual_gen_mva)
             in case advance_machine c of
                  (Inl e, c') \<Rightarrow> (Inl e, c')
                | (Inr u, c') \<Rightarrow> bus_actual_gen_loop bus_number acc c')
          else (Inr actual_gen_mva, c))"
  by pat_completeness auto
termination
  by (relation "measure (\<lambda>(n, a, c). length (machines_iterator c) + (if machines_available c then 1 else 0))")
     (auto simp: advance_machine_def split: list.splits sum.splits)

declare bus_actual_gen_loop.simps [simp del]

definition bus_actual_gen_mva :: "int \<Rightarrow> (machines_cursor, complex) prog" where
  "bus_actual_gen_mva bus_number = bus_actual_gen_loop bus_number 0"

subsection \<open>The analyser object\<close>

text \<open>
  The attributes \<open>__init__\<close> assigns once are the record \<open>analyser\<close>; the two cursors, which
  the sweep mutates, are the record \<open>cursors\<close> and are threaded as state. The methods that
  \<open>__init__\<close> itself calls take the attributes they read as arguments.
\<close>

record analyser =
  case_name :: string
  upper_load_limit_mva :: complex
  upper_gen_limit_mva :: complex
  selected_buses_ids :: "int list option"
  solver_tolerance_p_mw :: real
  solver_options :: solver_opts
  max_iterations :: int
  normal_limits :: "violations_limits option"
  contingency_limits :: "violations_limits option"
  use_full_newton_raphson :: bool
  contingency_scenario_of :: contingency_scenario

record cursors =
  loads :: loads_cursor
  machines :: machines_cursor

record bus_headroom_result =
  bh_bus :: bus
  bh_actual_load_mva :: complex
  bh_actual_gen_mva :: complex
  bh_load_avail_mva :: complex
  bh_gen_avail_mva :: complex
  bh_load_lf :: "limiting_factor option"
  bh_gen_lf :: "limiting_factor option"

definition on_loads :: "(loads_cursor, 'a) prog \<Rightarrow> (cursors, 'a) prog" where
  "on_loads m = (\<lambda>c. case m (loads c) of (r, lc) \<Rightarrow> (r, c\<lparr>loads := lc\<rparr>))"

definition on_machines :: "(machines_cursor, 'a) prog \<Rightarrow> (cursors, 'a) prog" where
  "on_machines m = (\<lambda>c. case m (machines c) of (r, mc) \<Rightarrow> (r, c\<lparr>machines := mc\<rparr>))"

subsection \<open>Solver set-up and the feasibility oracle\<close>

definition fdns_is_applicable :: "('n, 'm) psse \<Rightarrow> string \<Rightarrow> solver_opts \<Rightarrow> ('n, bool) prog" where
  "fdns_is_applicable env cname opts =
     pbind (open_case (wf env) cname) (\<lambda>u.
     pbind (run_solver (va env) False opts) (\<lambda>u.
     pbind (is_solved (wf env)) (\<lambda>solved.
       let is_applicable = (if solved then True else False) in
       if \<not> is_applicable then
         pbind (open_case (wf env) cname) (\<lambda>u.
         pbind (run_solver (va env) True opts) (\<lambda>u. ret is_applicable))
       else ret is_applicable)))"

definition limits_kwargs :: "violations_limits option \<Rightarrow> violations_limits" where
  "limits_kwargs l = (case l of None \<Rightarrow> [] | Some d \<Rightarrow> d)"

definition check_violations ::
  "('n, 'm) psse \<Rightarrow> violations_limits option \<Rightarrow> bool \<Rightarrow> solver_opts \<Rightarrow> ('n, violations) prog" where
  "check_violations env nl use_full opts = check_violations_fn (va env) (limits_kwargs nl) use_full opts"

definition check_base_case_violations ::
  "('n, 'm) psse \<Rightarrow> violations_limits option \<Rightarrow> bool \<Rightarrow> solver_opts \<Rightarrow> ('n, unit) prog" where
  "check_base_case_violations env nl use_full opts =
     pbind (check_violations env nl use_full opts) (\<lambda>base_case_violations.
       if base_case_violations \<noteq> NO_VIOLATIONS
       then raise (RuntimeError ''The base case has '' (Some base_case_violations))
       else ret ())"

definition contingency_check :: "('n, 'm) psse \<Rightarrow> analyser \<Rightarrow> ('n, limiting_factor) prog" where
  "contingency_check env an =
     get_contingency_limiting_factor (va env) (contingency_scenario_of an)
       (limits_kwargs (contingency_limits an)) (use_full_newton_raphson an)"

definition feasibility_check ::
  "('n, 'm) psse \<Rightarrow> analyser \<Rightarrow> ('n, bool \<times> limiting_factor option) prog" where
  "feasibility_check env an =
     pbind (check_violations env (normal_limits an) (use_full_newton_raphson an) (solver_options an))
       (\<lambda>violations.
          if violations \<noteq> NO_VIOLATIONS then ret (False, Some \<lparr>v = violations, ss = None\<rparr>)
          else pbind (contingency_check env an) (\<lambda>limiting_factor.
                 if v limiting_factor \<noteq> NO_VIOLATIONS then ret (False, Some limiting_factor)
                 else ret (True, None)))"

subsection \<open>The contingency scenario\<close>

text \<open>
  In the two predicates the body of the \<open>with\<close> statement yields \<open>Some b\<close> when it executes
  \<open>return b\<close> and \<open>None\<close> when it falls through to the \<open>return False\<close> after the statement.
\<close>

definition branch_is_not_critical ::
  "('n, 'm) psse \<Rightarrow> violations_limits option \<Rightarrow> bool \<Rightarrow> solver_opts \<Rightarrow> branch \<Rightarrow> ('n, bool) prog" where
  "branch_is_not_critical env nl use_full opts b =
     pbind (Branch_is_enabled env b) (\<lambda>enabled.
       if enabled then
         pbind (disable_branch env b (\<lambda>is_disabled.
                  if truthy is_disabled then
                    pbind (check_violations env nl use_full opts) (\<lambda>violations.
                      ret (Some (violations = NO_VIOLATIONS)))
                  else ret None))
           (\<lambda>returned. case returned of Some r \<Rightarrow> ret r | None \<Rightarrow> ret False)
       else ret False)"

definition trafo_is_not_critical ::
  "('n, 'm) psse \<Rightarrow> violations_limits option \<Rightarrow> bool \<Rightarrow> solver_opts \<Rightarrow> trafo \<Rightarrow> ('n, bool) prog" where
  "trafo_is_not_critical env nl use_full opts t =
     pbind (trafo_is_enabled (sub env) t) (\<lambda>enabled.
       if enabled then
         pbind (disable_trafo (sub env) t (\<lambda>is_disabled.
                  if truthy is_disabled then
                    pbind (check_violations env nl use_full opts) (\<lambda>violations.
                      ret (Some (violations = NO_VIOLATIONS)))
                  else ret None))
           (\<lambda>returned. case returned of Some r \<Rightarrow> ret r | None \<Rightarrow> ret False)
       else ret False)"

definition get_contingency_scenario ::
  "('n, 'm) psse \<Rightarrow> violations_limits option \<Rightarrow> bool \<Rightarrow> solver_opts \<Rightarrow> ('n, contingency_scenario) prog" where
  "get_contingency_scenario env nl use_full opts =
     pbind (Branches_init env) (\<lambda>raw.
     pbind (filter_p (branch_is_not_critical env nl use_full opts) (Branches_iter raw))
       (\<lambda>not_critical_branches.
     pbind (Trafos (sub env)) (\<lambda>trafos.
     pbind (filter_p (trafo_is_not_critical env nl use_full opts) trafos)
       (\<lambda>not_critical_trafos.
          ret \<lparr>cs_branches = not_critical_branches, cs_trafos = not_critical_trafos\<rparr>))))"

definition handle_empty_contingency_scenario ::
  "('n, 'm) psse \<Rightarrow> string \<Rightarrow> violations_limits option \<Rightarrow> bool \<Rightarrow> solver_opts \<Rightarrow>
   contingency_scenario option \<Rightarrow> ('n, contingency_scenario) prog" where
  "handle_empty_contingency_scenario env cname nl use_full opts given =
     (case given of
        Some cs \<Rightarrow> ret cs
      | None \<Rightarrow>
          pbind (get_contingency_scenario env nl use_full opts) (\<lambda>cs.
          pbind (open_case (wf env) cname) (\<lambda>u. ret cs)))"

subsection \<open>The bisection search\<close>

text \<open>
  The \<open>for\<close> loop of \<open>max_power_available_mva\<close>: the first argument counts the rounds left
  of \<open>range(max_iterations - 1)\<close>; \<open>break\<close> and the exhausted range both end the loop.
  The result is the value of the three loop variables when the loop ends, of which the
  \<open>return\<close> after the loop takes \<open>lower_limit_mva\<close> and \<open>limiting_factor\<close>.
  \<open>temp_subsystem\<close> is the call of the temporary subsystem object.
\<close>

fun bisection_loop ::
  "('n, 'm) psse \<Rightarrow> analyser \<Rightarrow> (complex \<Rightarrow> ('o \<times> 'n, unit) prog) \<Rightarrow> nat \<Rightarrow>
   complex \<Rightarrow> complex \<Rightarrow> limiting_factor option \<Rightarrow>
   ('o \<times> 'n, complex \<times> complex \<times> limiting_factor option) prog" where
  "bisection_loop env an temp_subsystem 0 lower_limit_mva upper_limit_mva limiting_factor s =
     (Inr (lower_limit_mva, upper_limit_mva, limiting_factor), s)"
| "bisection_loop env an temp_subsystem (Suc k) lower_limit_mva upper_limit_mva limiting_factor s =
     (let middle_mva = c_div (fp env) (c_add (fp env) lower_limit_mva upper_limit_mva) 2 in
      case temp_subsystem middle_mva s of
        (Inl e, s1) \<Rightarrow> (Inl e, s1)
      | (Inr u, s1) \<Rightarrow>
          (case on_net (feasibility_check env an) s1 of
             (Inl e, s2) \<Rightarrow> (Inl e, s2)
           | (Inr (is_feasible, lf), s2) \<Rightarrow>
               (let lower' = (if is_feasible then middle_mva else lower_limit_mva);
                    upper' = (if is_feasible then upper_limit_mva else middle_mva)
                in if f_sub (fp env) (Re upper') (Re lower') < solver_tolerance_p_mw an
                   then (Inr (lower', upper', lf), s2)
                   else bisection_loop env an temp_subsystem k lower' upper' lf s2)))"

definition max_power_available_mva ::
  "('n, 'm) psse \<Rightarrow> analyser \<Rightarrow> (complex \<Rightarrow> ('o \<times> 'n, unit) prog) \<Rightarrow> complex \<Rightarrow>
   ('o \<times> 'n, complex \<times> limiting_factor option) prog" where
  "max_power_available_mva env an temp_subsystem upper_limit_mva =
     pbind (temp_subsystem upper_limit_mva) (\<lambda>u.
     pbind (on_net (feasibility_check env an)) (\<lambda>(is_feasible, limiting_factor).
       if is_feasible then ret (upper_limit_mva, limiting_factor)
       else pbind (bisection_loop env an temp_subsystem (nat (max_iterations an - 1))
                     0 upper_limit_mva limiting_factor)
              (\<lambda>(lower_limit_mva, upper_end, lf). ret (lower_limit_mva, lf))))"

subsection \<open>The bus sweep\<close>

text \<open>The progress bar is display only and is left out.\<close>

definition bus_headroom ::
  "('n, 'm) psse \<Rightarrow> analyser \<Rightarrow> bus \<Rightarrow> (cursors \<times> 'n, bus_headroom_result) prog" where
  "bus_headroom env an b =
     pbind (on_obj (on_loads (bus_actual_load_mva (number b)))) (\<lambda>actual_load.
     pbind (on_obj (on_machines (bus_actual_gen_mva (number b)))) (\<lambda>actual_gen.
     pbind (local_obj (TemporaryBusLoad b)
              (with_cm (tbl_enter env b) (tbl_exit env b)
                 (max_power_available_mva env an (tbl_call env b) (upper_load_limit_mva an))))
       (\<lambda>(load_available, load_lf).
     pbind (if actual_gen \<noteq> 0 \<and> load_available \<noteq> 0 then
              local_obj (TemporaryBusMachine (sub env) b)
                (with_cm (tbm_enter (sub env) b) (tbm_exit (sub env) b)
                   (max_power_available_mva env an (tbm_call (sub env) b) (upper_gen_limit_mva an)))
            else ret (0, None))
       (\<lambda>(gen_available, gen_lf).
          ret \<lparr>bh_bus = b, bh_actual_load_mva = actual_load, bh_actual_gen_mva = actual_gen,
               bh_load_avail_mva = load_available, bh_gen_avail_mva = gen_available,
               bh_load_lf = load_lf, bh_gen_lf = gen_lf\<rparr>))))"

definition bus_selected :: "analyser \<Rightarrow> bus \<Rightarrow> bool" where
  "bus_selected an b =
     (case selected_buses_ids an of None \<Rightarrow> True | Some ids \<Rightarrow> number b \<in> set ids)"

definition CapacityAnalyser_buses_headroom ::
  "('n, 'm) psse \<Rightarrow> analyser \<Rightarrow> (cursors \<times> 'n, bus_headroom_result list) prog" where
  "CapacityAnalyser_buses_headroom env an =
     pbind (on_net (Buses_init env)) (\<lambda>raw.
     pbind (on_net (reset_count (va env))) (\<lambda>u.
       map_filter_p (bus_selected an) (bus_headroom env an) (Buses_iter raw)))"

subsection \<open>Construction and the entry point\<close>

text \<open>
  \<open>p + 1j * (p * math.tan(math.acos(pf)))\<close>, the product, the tangent and the arc cosine
  being those of the platform; \<open>math.acos\<close> raises \<open>ValueError\<close> outside \<open>[-1, 1]\<close>.
\<close>

definition upper_limit_mva :: "float_arith \<Rightarrow> real \<Rightarrow> real \<Rightarrow> error + complex" where
  "upper_limit_mva fl p pf =
     (if -1 \<le> pf \<and> pf \<le> 1
      then Inr (Complex p (f_mul fl p (f_tan fl (f_acos fl pf))))
      else Inl ValueError)"

definition CapacityAnalyser_init ::
  "('n, 'm) psse \<Rightarrow> string \<Rightarrow> real \<Rightarrow> real \<Rightarrow> real \<Rightarrow> real \<Rightarrow> int list option \<Rightarrow> real \<Rightarrow>
   solver_opts \<Rightarrow> int \<Rightarrow> violations_limits option \<Rightarrow> violations_limits option \<Rightarrow>
   contingency_scenario option \<Rightarrow> ('n, analyser \<times> cursors) prog" where
  "CapacityAnalyser_init env cname load_p gen_p load_pf gen_pf selected tol opts iters nl cl given =
     (case upper_limit_mva (fp env) load_p load_pf of Inl e \<Rightarrow> raise e | Inr load_limit \<Rightarrow>
     (case upper_limit_mva (fp env) gen_p gen_pf of Inl e \<Rightarrow> raise e | Inr gen_limit \<Rightarrow>
      pbind (fdns_is_applicable env cname opts) (\<lambda>applicable.
      pbind (check_base_case_violations env nl (\<not> applicable) opts) (\<lambda>u.
      pbind (handle_empty_contingency_scenario env cname nl (\<not> applicable) opts given) (\<lambda>scenario.
      pbind (Loads_init env) (\<lambda>raw.
      (case init_loads_cursor (Loads_iter raw) of
         (Inl e, lc) \<Rightarrow> raise e
       | (Inr u, lc) \<Rightarrow>
      pbind (Machines (sub env)) (\<lambda>items.
      (case init_machines_cursor items of
         (Inl e, mc) \<Rightarrow> raise e
       | (Inr u, mc) \<Rightarrow>
           ret (\<lparr>case_name = cname, upper_load_limit_mva = load_limit,
                 upper_gen_limit_mva = gen_limit, selected_buses_ids = selected,
                 solver_tolerance_p_mw = tol, solver_options = opts, max_iterations = iters,
                 normal_limits = nl, contingency_limits = cl,
                 use_full_newton_raphson = (\<not> applicable),
                 contingency_scenario_of = scenario\<rparr>,
                \<lparr>loads = lc, machines = mc\<rparr>))))))))))"

text \<open>The module function \<open>buses_headroom\<close>: construct the analyser, then sweep.\<close>

definition buses_headroom ::
  "('n, 'm) psse \<Rightarrow> string \<Rightarrow> real \<Rightarrow> real \<Rightarrow> real \<Rightarrow> real \<Rightarrow> int list option \<Rightarrow> real \<Rightarrow>
   solver_opts \<Rightarrow> int \<Rightarrow> violations_limits option \<Rightarrow> violations_limits option \<Rightarrow>
   contingency_scenario option \<Rightarrow> ('n, bus_headroom_result list) prog" where
  "buses_headroom env cname load_p gen_p load_pf gen_pf selected tol opts iters nl cl given =
     pbind (CapacityAnalyser_init env cname load_p gen_p load_pf gen_pf selected tol opts iters nl cl given)
       (\<lambda>(an, cur). \<lambda>n.
          case CapacityAnalyser_buses_headroom env an (cur, n) of (r, (cur', n')) \<Rightarrow> (r, n'))"

section \<open>Vocabulary of the properties\<close>

text \<open>
  One feasibility probe at the power \<open>p\<close>: the pair of statements
  \<open>temp_subsystem(p); self.feasibility_check()\<close> that \<open>max_power_available_mva\<close> executes
  for the upper limit and for every middle point.
\<close>

definition probe ::
  "('n, 'm) psse \<Rightarrow> analyser \<Rightarrow> (complex \<Rightarrow> ('o \<times> 'n, unit) prog) \<Rightarrow> complex \<Rightarrow>
   ('o \<times> 'n, bool \<times> limiting_factor option) prog" where
  "probe env an temp_subsystem p = pbind (temp_subsystem p) (\<lambda>u. on_net (feasibility_check env an))"





text \<open>
  The violation check with the single branch \<open>b\<close> removed and no extra injection, and what
  the body of a \<open>disable_branch\<close> scope observes: the value bound by \<open>as\<close> and the live
  status of the branch.
\<close>

definition solo_outage :: "('n, 'm) psse \<Rightarrow> branch \<Rightarrow> ('n, violations) prog" where
  "solo_outage env b = disable_branch env b (\<lambda>y. check_violations env None False [])"

definition observe_scope :: "('n, 'm) psse \<Rightarrow> branch \<Rightarrow> ('n, bool option \<times> bool) prog" where
  "observe_scope env b =
     disable_branch env b (\<lambda>y. pbind (Branch_is_enabled env b) (\<lambda>enabled. ret (y, enabled)))"

section \<open>A small network for concrete runs\<close>

text \<open>
  Modelled from the spec: the mutation primitives of section 6 (add, modify and remove a load
  at a bus; get and set the status of a branch) on a network that is a list of loads and a list
  of disabled branches. The violation classifier reports flag 1 when the active power of the
  total load exceeds the threshold \<open>T\<close>, and flag 2 when a branch of the list \<open>crit\<close> is
  disabled; every power flow is counted in \<open>g_flows\<close> and logged in \<open>g_trace\<close> with the
  total load it saw. The network has no machines and no transformers, and no contingency of
  the scenario ever violates.
\<close>

record grid =
  g_buses :: "bus list"
  g_branches :: "branch list"
  g_disabled :: "branch list"
  g_loads :: "load list"
  g_flows :: nat
  g_trace :: "(complex \<times> violations) list"

definition grid_total_load :: "grid \<Rightarrow> complex" where
  "grid_total_load g = sum_list (map mva_act (g_loads g))"

definition grid_violations :: "real \<Rightarrow> branch list \<Rightarrow> grid \<Rightarrow> violations" where
  "grid_violations T crit g =
     (if T < Re (grid_total_load g) then 1 else 0) +
     (if list_ex (\<lambda>b. b \<in> set crit) (g_disabled g) then 2 else 0)"

definition is_element :: "int \<Rightarrow> string \<Rightarrow> load \<Rightarrow> bool" where
  "is_element n i l = (load_number l = n \<and> load_id l = i)"

text \<open>
  Modelled from the spec: the functions of \<open>wrapped_funcs\<close> on the small network. None of
  them raises; \<open>load_data_6\<close> creates the element with zero power, \<open>load_chng_6\<close>
  overwrites the power of an existing element, \<open>purgload\<close> removes it, and
  \<open>branch_chng_3\<close> sets the status that \<open>brnint\<close> reads.
\<close>

definition grid_wf :: "grid wrapped_funcs" where
  "grid_wf =
     \<lparr>open_case = (\<lambda>name. ret ()),
      is_solved = ret True,
      brnint = (\<lambda>f t i field g.
        (Inr (if \<lparr>from_number = f, to_number = t, branch_id = i\<rparr> \<in> set (g_disabled g) then 0 else 1), g)),
      branch_chng_3 = (\<lambda>f t i st g.
        (Inr (), g\<lparr>g_disabled :=
           (if st = 0 then [\<lparr>from_number = f, to_number = t, branch_id = i\<rparr>] else []) @
           removeAll \<lparr>from_number = f, to_number = t, branch_id = i\<rparr> (g_disabled g)\<rparr>)),
      abrnint = (\<lambda>field g.
        (Inr [map (if field = ''fromNumber'' then from_number else to_number) (g_branches g)], g)),
      abrnchar = (\<lambda>field g. (Inr [map branch_id (g_branches g)], g)),
      abusint = (\<lambda>field g. (Inr [map number (g_buses g)], g)),
      abuschar = (\<lambda>field g. (Inr [map ex_name (g_buses g)], g)),
      aloadint = (\<lambda>field g. (Inr [map load_number (g_loads g)], g)),
      aloadchar = (\<lambda>field g.
        (Inr [map (if field = ''exName'' then load_ex_name else load_id) (g_loads g)], g)),
      aloadcplx = (\<lambda>field g. (Inr [map mva_act (g_loads g)], g)),
      load_data_6 = (\<lambda>n i g.
        (Inr (), g\<lparr>g_loads := filter (\<lambda>l. \<not> is_element n i l) (g_loads g) @
           [\<lparr>load_number = n, load_ex_name = [], load_id = i, mva_act = 0\<rparr>]\<rparr>)),
      purgload = (\<lambda>n i g. (Inr (), g\<lparr>g_loads := filter (\<lambda>l. \<not> is_element n i l) (g_loads g)\<rparr>)),
      load_chng_6 = (\<lambda>n i realar g.
        (Inr (), g\<lparr>g_loads :=
           map (\<lambda>l. if is_element n i l then l\<lparr>mva_act := Complex (realar ! 0) (realar ! 1)\<rparr> else l)
             (g_loads g)\<rparr>))\<rparr>"

text \<open>
  Modelled from the spec: the solver and the violation classifier of \<open>violations_analysis\<close>
  and the contingency screening of \<open>contingency_analysis\<close> on the small network.
\<close>

definition grid_va :: "real \<Rightarrow> branch list \<Rightarrow> grid analysis_funcs" where
  "grid_va T crit =
     \<lparr>run_solver = (\<lambda>full opts. ret ()),
      check_violations_fn = (\<lambda>kwargs full opts g.
        (Inr (grid_violations T crit g),
         g\<lparr>g_flows := Suc (g_flows g),
           g_trace := g_trace g @ [(grid_total_load g, grid_violations T crit g)]\<rparr>)),
      get_contingency_limiting_factor = (\<lambda>scenario kwargs full. ret \<lparr>v = NO_VIOLATIONS, ss = None\<rparr>),
      reset_count = (\<lambda>g. (Inr (), g\<lparr>g_flows := 0\<rparr>))\<rparr>"

text \<open>
  Modelled from the spec: the names of \<open>subsystems\<close> that are not among the sources, for a
  network without machines and transformers.
\<close>

definition grid_sub :: "(grid, unit) absent_subsystems" where
  "grid_sub =
     \<lparr>Machines = ret [],
      Trafos = ret [],
      trafo_is_enabled = (\<lambda>t. ret False),
      disable_trafo = (\<lambda>t body. body None),
      TemporaryBusMachine = (\<lambda>b. ()),
      tbm_enter = (\<lambda>b. ret ()),
      tbm_exit = (\<lambda>b. ret ()),
      tbm_call = (\<lambda>b p. ret ())\<rparr>"

text \<open>
  Arithmetic without rounding. The concrete runs below add, halve and subtract dyadic numbers
  of small magnitude, on which binary floating point arithmetic does not round, and read no
  tangent.
\<close>

definition exact_arith :: float_arith where
  "exact_arith =
     \<lparr>c_add = (\<lambda>a b. a + b), c_div = (\<lambda>a b. a / b), f_sub = (\<lambda>a b. a - b),
      f_mul = (\<lambda>a b. a * b), f_tan = tan, f_acos = arccos\<rparr>"

definition grid_env :: "real \<Rightarrow> branch list \<Rightarrow> (grid, unit) psse" where
  "grid_env T crit = \<lparr>wf = grid_wf, va = grid_va T crit, sub = grid_sub, fp = exact_arith\<rparr>"

text \<open>
  The analyser object with the default solver options, a tolerance and an iteration count.
\<close>

definition grid_analyser :: "real \<Rightarrow> int \<Rightarrow> analyser" where
  "grid_analyser tol iters =
     \<lparr>case_name = ''grid'', upper_load_limit_mva = 64, upper_gen_limit_mva = 64,
      selected_buses_ids = None, solver_tolerance_p_mw = tol,
      solver_options = [(''options1'', 1), (''options5'', 1)], max_iterations = iters,
      normal_limits = None, contingency_limits = None, use_full_newton_raphson = False,
      contingency_scenario_of = \<lparr>cs_branches = [], cs_trafos = []\<rparr>\<rparr>"

text \<open>An analyser, a bus and the temporary load element of that bus.\<close>

definition bus_A :: bus where
  "bus_A = \<lparr>number = 1, ex_name = ''A''\<rparr>"

definition temp_element :: "complex \<Rightarrow> load" where
  "temp_element p = \<lparr>load_number = 1, load_ex_name = [], load_id = TEMP_LOAD_ID, mva_act = p\<rparr>"

definition probing_grid :: "complex \<Rightarrow> temporary_bus_load \<times> grid" where
  "probing_grid p =
     (\<lparr>context_manager_is_active = True\<rparr>,
      \<lparr>g_buses = [bus_A], g_branches = [], g_disabled = [], g_loads = [temp_element p],
       g_flows = 0, g_trace = []\<rparr>)"


text \<open>A network of one bus and one branch, and the observations of the small network.\<close>

definition line_12 :: branch where
  "line_12 = \<lparr>from_number = 1, to_number = 2, branch_id = ''1''\<rparr>"

definition base_grid :: "load list \<Rightarrow> grid" where
  "base_grid ls =
     \<lparr>g_buses = [bus_A], g_branches = [line_12], g_disabled = [], g_loads = ls,
      g_flows = 0, g_trace = []\<rparr>"

definition grid_has_load :: "grid \<Rightarrow> int \<Rightarrow> string \<Rightarrow> bool" where
  "grid_has_load g n i = list_ex (is_element n i) (g_loads g)"

definition grid_is_on :: "grid \<Rightarrow> branch \<Rightarrow> bool" where
  "grid_is_on g b = (b \<notin> set (g_disabled g))"

text \<open>
  Bodies that raise, for the scopes, and a base case that violates the threshold of 30 MW.
\<close>

definition failing_body :: "('s, unit) prog" where
  "failing_body = raise (ExternalError 7)"

definition failing_scope_body :: "bool option \<Rightarrow> ('s, unit) prog" where
  "failing_scope_body y = raise (ExternalError 7)"

definition overloaded_grid :: grid where
  "overloaded_grid =
     base_grid [\<lparr>load_number = 1, load_ex_name = ''A'', load_id = ''1'', mva_act = Complex 40 8\<rparr>]"

section \<open>Verification\<close>

subsection \<open>Streaming aggregation of the loads\<close>

lemma loads_of_simps [simp]: "loads_of [] = []" "loads_of (Inr l # it) = l # loads_of it"
  "loads_of (Inl e # it) = loads_of it" "loads_of (map Inr ls) = ls"
  by (induction ls) (simp_all add: loads_of_def)

lemma all_Inr: "list_all (\<lambda>x. \<not> isl x) it \<Longrightarrow> it = map Inr (loads_of it)"
proof (induction it)
  case Nil
  then show ?case by simp
next
  case (Cons a it)
  then show ?case by (cases a) simp_all
qed

lemma loop_unavailable:
  "\<not> loads_available c \<Longrightarrow> bus_actual_load_loop n acc c = (Inr acc, c)"
  by (subst bus_actual_load_loop.simps) simp

lemma loop_avail:
  "loads_iterator c = map Inr rest \<Longrightarrow> loads_available c \<Longrightarrow> cur_load c = Some l \<Longrightarrow>
   \<exists>c'. bus_actual_load_loop n acc c =
          (Inr (acc + bus_total (takeWhile (\<lambda>l. load_number l \<le> n) (l # rest)) n), c')
        \<and> cursor_ok c' \<and> pending c' = dropWhile (\<lambda>l. load_number l \<le> n) (l # rest)"
proof (induction rest arbitrary: l acc c)
  case Nil
  then show ?case
    by (subst bus_actual_load_loop.simps)
       (simp add: advance_load_def loop_unavailable cursor_ok_def pending_def bus_total_def)
next
  case (Cons r rest)
  show ?case
  proof (cases "load_number l \<le> n")
    case False
    with Cons.prems show ?thesis
      by (subst bus_actual_load_loop.simps)
         (simp add: cursor_ok_def pending_def bus_total_def list_all_iff)
  next
    case True
    let ?c' = "c\<lparr>loads_iterator := map Inr rest, cur_load := Some r\<rparr>"
    let ?acc = "if load_number l = n then acc + mva_act l else acc"
    have step: "bus_actual_load_loop n acc c = bus_actual_load_loop n ?acc ?c'"
      using Cons.prems True
      by (subst bus_actual_load_loop.simps) (simp add: advance_load_def)
    from Cons.IH[of ?c' r ?acc] Cons.prems
    obtain c'' where
      "bus_actual_load_loop n ?acc ?c' =
         (Inr (?acc + bus_total (takeWhile (\<lambda>l. load_number l \<le> n) (r # rest)) n), c'')"
      "cursor_ok c''" "pending c'' = dropWhile (\<lambda>l. load_number l \<le> n) (r # rest)"
      by auto
    with step True show ?thesis
      by (auto simp: bus_total_def)
  qed
qed

lemma loop_spec:
  assumes "cursor_ok c"
  shows "\<exists>c'. bus_actual_load_loop n acc c =
          (Inr (acc + bus_total (takeWhile (\<lambda>l. load_number l \<le> n) (pending c)) n), c')
        \<and> cursor_ok c' \<and> pending c' = dropWhile (\<lambda>l. load_number l \<le> n) (pending c)"
proof (cases "loads_available c")
  case False
  with assms show ?thesis
    by (simp add: loop_unavailable pending_def bus_total_def)
next
  case True
  with assms obtain l where l: "cur_load c = Some l" by (auto simp: cursor_ok_def)
  from assms have it: "loads_iterator c = map Inr (loads_of (loads_iterator c))"
    by (simp add: cursor_ok_def all_Inr)
  have p: "pending c = l # loads_of (loads_iterator c)" using True l by (simp add: pending_def)
  show ?thesis using loop_avail[OF it True l] p by simp
qed


lemma init_cursor: "init_loads_cursor (map Inr ls) = (Inr (), cursor_of ls)"
  by (cases ls) (simp_all add: cursor_of_def init_loads_cursor_def advance_load_def)

lemma cursor_of_ok: "cursor_ok (cursor_of ls)"
  by (cases ls)
     (simp_all add: cursor_of_def init_loads_cursor_def advance_load_def cursor_ok_def list_all_iff)

lemma pending_cursor_of: "pending (cursor_of ls) = ls"
  by (cases ls) (simp_all add: cursor_of_def init_loads_cursor_def advance_load_def pending_def)

lemma mva_spec:
  assumes "cursor_ok c"
  shows "\<exists>c'. bus_actual_load_mva n c =
          (Inr (bus_total (takeWhile (\<lambda>l. load_number l \<le> n) (pending c)) n), c')
        \<and> cursor_ok c' \<and> pending c' = dropWhile (\<lambda>l. load_number l \<le> n) (pending c)"
  using loop_spec[OF assms, of n 0] by (simp add: bus_actual_load_mva_def)

lemma sorted_dropWhile_gt:
  "sorted (map f xs) \<Longrightarrow> \<forall>x\<in>set (dropWhile (\<lambda>x. f x \<le> (n::int)) xs). n < f x"
  by (induction xs) auto

lemma sorted_map_dropWhile: "sorted (map f xs) \<Longrightarrow> sorted (map f (dropWhile P xs))"
  by (induction xs) auto

lemma bus_total_append: "bus_total (xs @ ys) n = bus_total xs n + bus_total ys n"
  by (simp add: bus_total_def)

lemma bus_total_none: "\<forall>l\<in>set xs. load_number l \<noteq> n \<Longrightarrow> bus_total xs n = 0"
  by (induction xs) (simp_all add: bus_total_def)

lemma bus_total_takeWhile:
  assumes "sorted (map load_number xs)"
  shows "bus_total (takeWhile (\<lambda>l. load_number l \<le> n) xs) n = bus_total xs n"
proof -
  have "bus_total (dropWhile (\<lambda>l. load_number l \<le> n) xs) n = 0"
    using sorted_dropWhile_gt[OF assms, of n] by (intro bus_total_none) auto
  moreover have "bus_total xs n =
      bus_total (takeWhile (\<lambda>l. load_number l \<le> n) xs) n
    + bus_total (dropWhile (\<lambda>l. load_number l \<le> n) xs) n"
    by (simp flip: bus_total_append)
  ultimately show ?thesis by simp
qed

lemma query_loads_spec:
  "cursor_ok c \<Longrightarrow> sorted (map load_number (pending c)) \<Longrightarrow> sorted_wrt (<) qs \<Longrightarrow>
   ls = pre @ pending c \<Longrightarrow> \<forall>l\<in>set pre. \<forall>q\<in>set qs. load_number l < q \<Longrightarrow>
   \<exists>c' pre'. query_loads qs c = (Inr (map (bus_total ls) qs), c') \<and> cursor_ok c'
          \<and> ls = pre' @ pending c'"
proof (induction qs arbitrary: c pre)
  case Nil
  then show ?case by auto
next
  case (Cons q qs)
  let ?P = "\<lambda>l. load_number l \<le> q"
  from mva_spec[OF Cons.prems(1), of q] obtain c1 where
    r: "bus_actual_load_mva q c = (Inr (bus_total (takeWhile ?P (pending c)) q), c1)"
    and ok1: "cursor_ok c1" and p1: "pending c1 = dropWhile ?P (pending c)"
    by blast
  have "bus_total pre q = 0"
    using Cons.prems(5) by (intro bus_total_none) auto
  then have val: "bus_total (takeWhile ?P (pending c)) q = bus_total ls q"
    using Cons.prems(2,4) by (simp add: bus_total_takeWhile bus_total_append)
  have s1: "sorted (map load_number (pending c1))"
    using Cons.prems(2) p1 by (simp add: sorted_map_dropWhile)
  have ls1: "ls = (pre @ takeWhile ?P (pending c)) @ pending c1"
    using Cons.prems(4) p1 by simp
  have lt: "\<forall>l\<in>set (pre @ takeWhile ?P (pending c)). \<forall>q'\<in>set qs. load_number l < q'"
    using Cons.prems(3,5) by (auto dest!: set_takeWhileD)
  from Cons.IH[OF ok1 s1 _ ls1 lt] Cons.prems(3)
  obtain c' pre' where "query_loads qs c1 = (Inr (map (bus_total ls) qs), c')"
     "cursor_ok c'" "ls = pre' @ pending c'"
    by auto
  with r val show ?case by auto
qed


lemma loop_stops:
  "cursor_ok c \<Longrightarrow> pending c = [] \<or> n < load_number (hd (pending c)) \<Longrightarrow>
   bus_actual_load_loop n acc c = (Inr acc, c)"
  by (subst bus_actual_load_loop.simps)
     (auto simp: cursor_ok_def pending_def split: option.splits)

lemma head_after_query_self:
  assumes "pending c' = dropWhile (\<lambda>l. load_number l \<le> n) (pending c)"
  shows "pending c' = [] \<or> n < load_number (hd (pending c'))"
proof (cases "pending c' = []")
  case False
  then have "\<not> load_number (hd (pending c')) \<le> n"
    using hd_dropWhile[of "\<lambda>l. load_number l \<le> n" "pending c"] assms by simp
  then show ?thesis by simp
qed simp

lemma head_after_query:
  assumes "pending c' = dropWhile (\<lambda>l. load_number l \<le> n) (pending c)"
    and "pending c = [] \<or> q < load_number (hd (pending c))"
  shows "pending c' = [] \<or> q < load_number (hd (pending c'))"
proof (cases "pending c")
  case Nil
  with assms show ?thesis by simp
next
  case (Cons l rest)
  show ?thesis
  proof (cases "load_number l \<le> n")
    case False
    with Cons assms show ?thesis by simp
  next
    case True
    have "pending c' = [] \<or> n < load_number (hd (pending c'))"
      using assms(1) by (rule head_after_query_self)
    moreover have "q < n" using True Cons assms(2) by simp
    ultimately show ?thesis by auto
  qed
qed

lemma query_loads_any_order:
  "cursor_ok c \<Longrightarrow> \<forall>q\<in>Q. pending c = [] \<or> q < load_number (hd (pending c)) \<Longrightarrow>
   \<exists>rs c'. query_loads qs c = (Inr rs, c') \<and> cursor_ok c'
      \<and> (\<exists>k. pending c' = drop k (pending c))
      \<and> (\<forall>q\<in>Q \<union> set qs. pending c' = [] \<or> q < load_number (hd (pending c')))"
proof (induction qs arbitrary: c Q)
  case Nil
  have "pending c = drop 0 (pending c)" by simp
  then have "\<exists>k. pending c = drop k (pending c)" ..
  with Nil show ?case by simp
next
  case (Cons n qs)
  let ?P = "\<lambda>l. load_number l \<le> n"
  from mva_spec[OF Cons.prems(1), of n] obtain r c1 where
    r: "bus_actual_load_mva n c = (Inr r, c1)"
    and ok1: "cursor_ok c1" and p1: "pending c1 = dropWhile ?P (pending c)"
    by blast
  have h1: "\<forall>q\<in>insert n Q. pending c1 = [] \<or> q < load_number (hd (pending c1))"
    using head_after_query[OF p1] head_after_query_self[OF p1] Cons.prems(2) by blast
  from Cons.IH[OF ok1 h1] obtain rs c' k where
    q: "query_loads qs c1 = (Inr rs, c')" and ok': "cursor_ok c'"
    and k: "pending c' = drop k (pending c1)"
    and h': "\<forall>q\<in>insert n Q \<union> set qs. pending c' = [] \<or> q < load_number (hd (pending c'))"
    by blast
  have "pending c1 = drop (length (takeWhile ?P (pending c))) (pending c)"
    using p1 by (simp add: dropWhile_eq_drop)
  with k have "pending c' = drop (k + length (takeWhile ?P (pending c))) (pending c)"
    by (simp add: add.commute)
  with r q ok' h' show ?case by auto
qed

lemma sorted_hd_le:
  "sorted (map f xs) \<Longrightarrow> x \<in> set xs \<Longrightarrow> f (hd xs) \<le> (f x :: int)"
  by (cases xs) auto

text \<open>
  Claim C6, as amended. For a loads list that is non-decreasing in bus number and a
  strictly increasing sequence of queried bus numbers, the cursor built by \<open>__init__\<close>
  answers every query \<open>bus_actual_load_mva(N)\<close> with the sum of \<open>mva_act\<close> over all loads
  whose bus number is \<open>N\<close>, no query raises, and the cursor ends on a suffix of the list:
  it has only moved forward.
\<close>

theorem bus_actual_load_mva_increasing_sweep:
  assumes "sorted (map load_number ls)" and "sorted_wrt (<) qs"
  shows "init_loads_cursor (map Inr ls) = (Inr (), cursor_of ls) \<and>
         fst (query_loads qs (cursor_of ls)) = Inr (map (bus_total ls) qs) \<and>
         (\<exists>consumed. ls = consumed @ pending (cursor_after qs ls))"
proof -
  have "\<exists>c' pre'. query_loads qs (cursor_of ls) = (Inr (map (bus_total ls) qs), c')
          \<and> cursor_ok c' \<and> ls = pre' @ pending c'"
    using assms by (intro query_loads_spec[where pre = "[]"]) (simp_all add: cursor_of_ok pending_cursor_of)
  then show ?thesis by (auto simp: init_cursor cursor_after_def)
qed

text \<open>
  Claim C6, the example of the specification: the loads \<open>[(1,5+0j), (1,3+0j), (4,2+0j),
  (9,1+0j)]\<close> queried at 1, 4 and 9 give \<open>8+0j\<close>, \<open>2+0j\<close> and \<open>1+0j\<close>.
\<close>

theorem bus_actual_load_mva_increasing_sweep_witness:
  "sorted (map load_number spec_loads) \<and> sorted_wrt (<) [1, 4, 9 :: int] \<and>
   fst (query_loads [1, 4, 9] (cursor_of spec_loads)) = Inr [8, 2, 1]"
  using bus_actual_load_mva_increasing_sweep [of spec_loads "[1, 4, 9]"]
  by (simp add: spec_loads_def bus_total_def)

text \<open>
  Claim C6 as stated admits a non-decreasing query sequence that repeats a bus number. On the
  same loads the queries 1, 1 are non-decreasing, and the second query returns \<open>0j\<close> while
  the loads at bus 1 sum to \<open>8+0j\<close>: the first query has moved the cursor past them.
\<close>

theorem bus_actual_load_mva_repeated_query:
  "sorted (map load_number spec_loads) \<and> sorted [1, 1 :: int] \<and>
   fst (query_loads [1, 1] (cursor_of spec_loads)) = Inr [8, 0] \<and>
   bus_total spec_loads 1 = 8"
  by (simp add: spec_loads_def bus_total_def cursor_of_def init_loads_cursor_def advance_load_def
        bus_actual_load_mva_def bus_actual_load_loop.simps)

text \<open>
  Claim C10. After any run of queries \<open>qs\<close> on a loads list that is non-decreasing in bus
  number, a query for a bus number \<open>n\<close> smaller than one already queried raises nothing,
  leaves the cursor where it is and returns \<open>0j\<close>, which is the sum over the loads of bus
  \<open>n\<close> that the cursor has not consumed: there are none left.
\<close>

theorem bus_actual_load_mva_decreasing_query:
  assumes "sorted (map load_number ls)" and "m \<in> set qs" and "n < m"
  shows "(\<exists>rs. fst (query_loads qs (cursor_of ls)) = Inr rs) \<and>
         bus_actual_load_mva n (cursor_after qs ls) = (Inr 0, cursor_after qs ls) \<and>
         bus_total (pending (cursor_after qs ls)) n = 0"
proof -
  from query_loads_any_order[OF cursor_of_ok, of "{}" ls qs]
  obtain rs c' k where q: "query_loads qs (cursor_of ls) = (Inr rs, c')" and ok: "cursor_ok c'"
    and k: "pending c' = drop k ls"
    and h: "\<forall>q\<in>set qs. pending c' = [] \<or> q < load_number (hd (pending c'))"
    by (auto simp: pending_cursor_of)
  have c': "cursor_after qs ls = c'" using q by (simp add: cursor_after_def)
  have hd: "pending c' = [] \<or> n < load_number (hd (pending c'))"
    using h assms(2,3) by fastforce
  have srt: "sorted (map load_number (pending c'))"
    using assms(1) k by (simp add: sorted_wrt_drop flip: drop_map)
  have "\<forall>l\<in>set (pending c'). load_number l \<noteq> n"
  proof
    fix l assume l: "l \<in> set (pending c')"
    then have "pending c' \<noteq> []" by auto
    with hd have "n < load_number (hd (pending c'))" by simp
    also have "\<dots> \<le> load_number l" using sorted_hd_le[OF srt l] .
    finally show "load_number l \<noteq> n" by simp
  qed
  then have "bus_total (pending c') n = 0" by (rule bus_total_none)
  moreover have "bus_actual_load_mva n c' = (Inr 0, c')"
    using loop_stops[OF ok hd] by (simp add: bus_actual_load_mva_def)
  ultimately show ?thesis using q c' by simp
qed

text \<open>
  Claim C10 on the example loads: after the queries 1 and 4, the query 1 returns \<open>0j\<close>
  although the loads at bus 1 sum to \<open>8+0j\<close>.
\<close>

theorem bus_actual_load_mva_decreasing_query_witness:
  "sorted (map load_number spec_loads) \<and> (4::int) \<in> set [1, 4] \<and> (1::int) < 4 \<and>
   bus_actual_load_mva 1 (cursor_after [1, 4] spec_loads) = (Inr 0, cursor_after [1, 4] spec_loads) \<and>
   bus_total spec_loads 1 = 8"
  using bus_actual_load_mva_decreasing_query [of spec_loads 4 "[1, 4]" 1]
  by (simp add: spec_loads_def bus_total_def)

subsection \<open>The bisection search\<close>

lemmas grid_defs = grid_env_def exact_arith_def grid_wf_def grid_va_def grid_sub_def grid_violations_def
  grid_total_load_def grid_analyser_def bus_A_def temp_element_def probing_grid_def is_element_def
  TEMP_LOAD_ID_def

lemmas prog_defs = ret_def raise_def pbind_def on_net_def on_obj_def local_obj_def try_finally_def
  with_cm_def


declare bisection_loop.simps(2) [simp del]

lemma max_power_probe:
  "max_power_available_mva env an temp U s =
     (case probe env an temp U s of
        (Inl e, s2) \<Rightarrow> (Inl e, s2)
      | (Inr (is_feasible, lf), s2) \<Rightarrow>
          if is_feasible then (Inr (U, lf), s2)
          else (case bisection_loop env an temp (nat (max_iterations an - 1)) 0 U lf s2 of
                  (Inl e, s3) \<Rightarrow> (Inl e, s3)
                | (Inr (lo, up, lf'), s3) \<Rightarrow> (Inr (lo, lf'), s3)))"
  by (simp add: max_power_available_mva_def probe_def pbind_def ret_def split: prod.splits sum.splits)



lemma feasibility_check_feasible:
  "feasibility_check env an n = (Inr (True, lf), n') \<Longrightarrow> lf = None"
  by (auto simp: feasibility_check_def pbind_def ret_def split: prod.splits sum.splits if_splits)

lemma probe_feasible:
  "fst (probe env an temp p s) = Inr (True, lf) \<Longrightarrow> lf = None"
  by (auto simp: probe_def pbind_def on_net_def dest: feasibility_check_feasible
      split: prod.splits sum.splits)

text \<open>
  Claim C5. If the probe of the upper limit \<open>U\<close> is feasible, \<open>max_power_available_mva\<close>
  returns exactly \<open>U\<close> (with no limiting factor) and the state it leaves is the state that
  this single probe left: nothing is executed after it.
\<close>

theorem max_power_upper_limit_feasible:
  assumes "fst (probe env an temp U s) = Inr (True, lf)"
  shows "max_power_available_mva env an temp U s = (Inr (U, None), snd (probe env an temp U s))"
  using assms probe_feasible[OF assms]
  by (cases "probe env an temp U s") (simp add: max_power_probe)

lemmas run_defs = max_power_available_mva_def prog_defs grid_defs tbl_call_def feasibility_check_def
   check_violations_def contingency_check_def limits_kwargs_def NO_VIOLATIONS_def Let_def





lemmas eval_defs = run_defs bisection_loop.simps numeral_eq_Suc probe_def


text \<open>
  Claim C5 on the small network: with threshold 100 MW the upper limit \<open>64+0j\<close> is
  feasible, it is returned unchanged, and the log holds the one power flow of that probe.
\<close>

theorem max_power_upper_limit_feasible_witness:
  "fst (probe (grid_env 100 []) (grid_analyser 5 10) (tbl_call (grid_env 100 []) bus_A) 64
          (probing_grid 0)) = Inr (True, None) \<and>
   max_power_available_mva (grid_env 100 []) (grid_analyser 5 10) (tbl_call (grid_env 100 []) bus_A)
      64 (probing_grid 0)
     = (Inr (64, None),
        snd (probe (grid_env 100 []) (grid_analyser 5 10) (tbl_call (grid_env 100 []) bus_A) 64
               (probing_grid 0))) \<and>
   g_trace (snd (snd (max_power_available_mva (grid_env 100 []) (grid_analyser 5 10)
      (tbl_call (grid_env 100 []) bus_A) 64 (probing_grid 0)))) = [(64, 0)]"
proof -
  have h: "fst (probe (grid_env 100 []) (grid_analyser 5 10) (tbl_call (grid_env 100 []) bus_A) 64
          (probing_grid 0)) = Inr (True, None)"
    by (simp add: eval_defs)
  have tr: "g_trace (snd (snd (max_power_available_mva (grid_env 100 []) (grid_analyser 5 10)
      (tbl_call (grid_env 100 []) bus_A) 64 (probing_grid 0)))) = [(64, 0)]"
    by (simp add: eval_defs complex_eq_iff)
  from max_power_upper_limit_feasible [OF h] h tr show ?thesis by blast
qed


text \<open>
  Claim C4 at a concrete input: threshold 30 MW, upper limit \<open>50+24j\<close>, tolerance 5 MW,
  10 iterations. The log shows the probes 50 (infeasible), 25 (feasible), 37.5 (infeasible),
  31.25 (infeasible) and 28.125 (feasible). The last infeasible probe, at 31.25 MW, produced
  the limiting factor \<open>LimitingFactor(1, None)\<close>; the search returns \<open>28.125+13.5j\<close>
  with the limiting factor \<open>None\<close> of the last, feasible probe.
\<close>

theorem max_power_limiting_factor_lost:
  "fst (max_power_available_mva (grid_env 30 []) (grid_analyser 5 10) (tbl_call (grid_env 30 []) bus_A)
          (Complex 50 24) (probing_grid 0)) = Inr (Complex (225 / 8) (27 / 2), None) \<and>
   g_trace (snd (snd (max_power_available_mva (grid_env 30 []) (grid_analyser 5 10)
          (tbl_call (grid_env 30 []) bus_A) (Complex 50 24) (probing_grid 0))))
     = [(Complex 50 24, 1), (Complex 25 12, 0), (Complex (75 / 2) 18, 1),
        (Complex (125 / 4) 15, 1), (Complex (225 / 8) (27 / 2), 0)] \<and>
   fst (probe (grid_env 30 []) (grid_analyser 5 10) (tbl_call (grid_env 30 []) bus_A)
          (Complex (125 / 4) 15) (probing_grid 0)) = Inr (False, Some \<lparr>v = 1, ss = None\<rparr>)"
  by (simp add: eval_defs complex_eq_iff)

subsection \<open>The contingency scenario and the disable scope\<close>

lemmas ctg_defs = get_contingency_scenario_def branch_is_not_critical_def trafo_is_not_critical_def
  Branch_is_enabled_def Branches_init_def Branches_iter_def Branches_item_def disable_branch_def
  py_index_def truthy_def solo_outage_def observe_scope_def line_12_def base_grid_def
  check_violations_def limits_kwargs_def NO_VIOLATIONS_def

lemma branch_is_not_critical_never:
  "fst (branch_is_not_critical env nl full opts b n) \<noteq> Inr True"
  by (auto simp: branch_is_not_critical_def disable_branch_def truthy_def prog_defs
      split: prod.splits sum.splits option.splits if_splits)

lemma filter_p_never:
  assumes "\<And>x s. fst (f x s) \<noteq> Inr True"
  shows "filter_p f xs s = (Inr ys, s') \<Longrightarrow> ys = []"
proof (induction xs arbitrary: s ys s')
  case Nil
  then show ?case by simp
next
  case (Cons a xs)
  show ?case
  proof (cases a)
    case (Inl e)
    with Cons.prems show ?thesis by simp
  next
    case (Inr x)
    obtain r s1 where fx: "f x s = (r, s1)" by (cases "f x s")
    with assms[of x s] have nt: "r \<noteq> Inr True" by simp
    obtain r2 s2 where rest: "filter_p f xs s1 = (r2, s2)" by (cases "filter_p f xs s1")
    from Cons.prems Inr fx rest nt have "r2 = Inr ys"
      by (auto split: sum.splits if_splits)
    with rest have "filter_p f xs s1 = (Inr ys, s2)" by simp
    then show ?thesis by (rule Cons.IH)
  qed
qed

lemma get_contingency_scenario_no_branches:
  assumes "get_contingency_scenario env nl full opts n = (Inr cs, n')"
  shows "cs_branches cs = []"
proof -
  from assms obtain raw n1 bs n2 where
    fl: "filter_p (branch_is_not_critical env nl full opts) (Branches_iter raw) n1 = (Inr bs, n2)"
    and cs: "cs_branches cs = bs"
    by (auto simp: get_contingency_scenario_def prog_defs split: prod.splits sum.splits)
  have "bs = []"
    by (rule filter_p_never[OF branch_is_not_critical_never fl])
  with cs show ?thesis by simp
qed

text \<open>
  Claim C2 at a concrete input: a network whose only branch is enabled and whose removal
  alone leaves no violation. The claim puts the branch into the scenario; the scenario built
  by \<open>get_contingency_scenario\<close> has no branch.
\<close>

theorem contingency_scenario_omits_non_critical_branch:
  "fst (Branch_is_enabled (grid_env 100 []) line_12 (base_grid [])) = Inr True \<and>
   fst (solo_outage (grid_env 100 []) line_12 (base_grid [])) = Inr NO_VIOLATIONS \<and>
   fst (get_contingency_scenario (grid_env 100 []) None False [] (base_grid []))
     = Inr \<lparr>cs_branches = [], cs_trafos = []\<rparr>"
  by (simp add: ctg_defs prog_defs grid_defs)

text \<open>
  Claim C3 at a concrete input: inside the scope of \<open>disable_branch\<close> the branch is
  disabled (the disable succeeded), yet the value bound by \<open>as\<close> is \<open>None\<close>, whose
  truth value is false; \<open>branch_is_not_critical\<close> therefore runs no power flow and answers
  \<open>False\<close>.
\<close>

theorem disable_scope_reports_nothing:
  "observe_scope (grid_env 100 []) line_12 (base_grid []) = (Inr (None, False), base_grid []) \<and>
   branch_is_not_critical (grid_env 100 []) None False [] line_12 (base_grid [])
     = (Inr False, base_grid [])"
  by (simp add: ctg_defs prog_defs grid_defs)

subsection \<open>Scoped mutations, the set-power call and construction\<close>

lemma with_cm_entered:
  assumes "enter s = (Inr (), s1)"
  shows "with_cm enter exit body s =
     (case exit (snd (body s1)) of
        (Inl e, s3) \<Rightarrow> (Inl e, s3)
      | (Inr u, s3) \<Rightarrow> (fst (body s1), s3))"
  using assms by (simp add: with_cm_def pbind_def try_finally_def split: prod.splits sum.splits)

lemma tbl_exit_run:
  assumes "purgload (wf env) (number b) TEMP_LOAD_ID n = (Inr (), n')"
  shows "tbl_exit env b (t, n) = (Inr (), (t\<lparr>context_manager_is_active := False\<rparr>, n'))"
  using assms by (simp add: tbl_exit_def pbind_def on_net_def on_obj_def set_active_def)

text \<open>
  Claim C7. Let the delete primitive delete (after \<open>purgload\<close> the element is not in the
  network) and the status primitive enable (after \<open>branch_chng_3\<close> with status 1 the branch
  is on). Then for every body, whether it returns or raises, and whether or not it ever sets
  the power: a \<open>TemporaryBusLoad\<close> scope that was entered ends with the outcome of its body,
  the temporary element deleted and the scope inactive; and a \<open>disable_branch\<close> scope ends
  with the branch on, with the outcome of its body when the disabling call returned.
\<close>

theorem scoped_mutations_rolled_back:
  assumes del: "\<forall>k i n. \<exists>n'. purgload (wf env) k i n = (Inr (), n') \<and> \<not> has_load n' k i"
    and on: "\<forall>f t i n. \<exists>n'. branch_chng_3 (wf env) f t i 1 n = (Inr (), n')
               \<and> is_on n' \<lparr>from_number = f, to_number = t, branch_id = i\<rparr>"
    and entered: "tbl_enter env b (TemporaryBusLoad b, n) = (Inr (), s1)"
  shows "(\<exists>t' n'. with_cm (tbl_enter env b) (tbl_exit env b) body (TemporaryBusLoad b, n)
             = (fst (body s1), (t', n'))
           \<and> \<not> has_load n' (number b) TEMP_LOAD_ID \<and> \<not> context_manager_is_active t') \<and>
         (\<exists>r n'. disable_branch env br scope_body n = (r, n') \<and> is_on n' br \<and>
            (\<forall>n1. branch_chng_3 (wf env) (from_number br) (to_number br) (branch_id br) 0 n
                    = (Inr (), n1) \<longrightarrow> r = fst (scope_body None n1)))"
proof
  obtain r t2 n2 where body: "body s1 = (r, (t2, n2))" by (cases "body s1") auto
  from del obtain n3 where
    pl: "purgload (wf env) (number b) TEMP_LOAD_ID n2 = (Inr (), n3)"
    and gone: "\<not> has_load n3 (number b) TEMP_LOAD_ID"
    by blast
  have "with_cm (tbl_enter env b) (tbl_exit env b) body (TemporaryBusLoad b, n)
          = (fst (body s1), (t2\<lparr>context_manager_is_active := False\<rparr>, n3))"
    using with_cm_entered[of "tbl_enter env b" "(TemporaryBusLoad b, n)" s1 "tbl_exit env b" body,
        OF entered]
    by (simp add: body tbl_exit_run[OF pl])
  with gone show "\<exists>t' n'. with_cm (tbl_enter env b) (tbl_exit env b) body (TemporaryBusLoad b, n)
             = (fst (body s1), (t', n'))
           \<and> \<not> has_load n' (number b) TEMP_LOAD_ID \<and> \<not> context_manager_is_active t'"
    by auto
next
  let ?off = "branch_chng_3 (wf env) (from_number br) (to_number br) (branch_id br) 0"
  let ?on = "branch_chng_3 (wf env) (from_number br) (to_number br) (branch_id br) 1"
  obtain r n2 where inner: "pbind ?off (\<lambda>u. scope_body None) n = (r, n2)"
    by (cases "pbind ?off (\<lambda>u. scope_body None) n")
  from on obtain n3 where fin: "?on n2 = (Inr (), n3)"
    and ison: "is_on n3 \<lparr>from_number = from_number br, to_number = to_number br,
                         branch_id = branch_id br\<rparr>"
    by blast
  have res: "disable_branch env br scope_body n = (r, n3)"
    by (simp add: disable_branch_def try_finally_def inner fin)
  note res ison
  moreover have "\<forall>n1. ?off n = (Inr (), n1) \<longrightarrow> r = fst (scope_body None n1)"
    using inner by (auto simp: pbind_def)
  moreover have "\<lparr>from_number = from_number br, to_number = to_number br,
      branch_id = branch_id br\<rparr> = br" by (cases br) simp
  ultimately show "\<exists>r n'. disable_branch env br scope_body n = (r, n') \<and> is_on n' br \<and>
            (\<forall>n1. ?off n = (Inr (), n1) \<longrightarrow> r = fst (scope_body None n1))"
    by auto
qed


lemmas scope_defs = tbl_enter_def tbl_exit_def tbl_call_def set_active_def TemporaryBusLoad_def
  disable_branch_def failing_body_def failing_scope_body_def grid_has_load_def grid_is_on_def
  line_12_def base_grid_def overloaded_grid_def usage_error_def

text \<open>
  Claim C7 on the small network, with bodies that raise: the exception reaches the caller
  and the network is as it was before the scope.
\<close>

theorem scoped_mutations_rolled_back_witness:
  "(\<forall>k i n. \<exists>n'. purgload (wf (grid_env 100 [])) k i n = (Inr (), n') \<and> \<not> grid_has_load n' k i) \<and>
   (\<forall>f t i n. \<exists>n'. branch_chng_3 (wf (grid_env 100 [])) f t i 1 n = (Inr (), n')
       \<and> grid_is_on n' \<lparr>from_number = f, to_number = t, branch_id = i\<rparr>) \<and>
   tbl_enter (grid_env 100 []) bus_A (TemporaryBusLoad bus_A, base_grid [])
     = (Inr (), (\<lparr>context_manager_is_active = True\<rparr>, base_grid [temp_element 0])) \<and>
   (\<exists>t' n'. with_cm (tbl_enter (grid_env 100 []) bus_A) (tbl_exit (grid_env 100 []) bus_A)
        failing_body (TemporaryBusLoad bus_A, base_grid [])
          = (fst (failing_body (\<lparr>context_manager_is_active = True\<rparr>, base_grid [temp_element 0])),
             (t', n'))
      \<and> \<not> grid_has_load n' (number bus_A) TEMP_LOAD_ID \<and> \<not> context_manager_is_active t') \<and>
   with_cm (tbl_enter (grid_env 100 []) bus_A) (tbl_exit (grid_env 100 []) bus_A)
        failing_body (TemporaryBusLoad bus_A, base_grid [])
     = (Inl (ExternalError 7), (TemporaryBusLoad bus_A, base_grid [])) \<and>
   disable_branch (grid_env 100 []) line_12 failing_scope_body (base_grid [])
     = (Inl (ExternalError 7), base_grid [])"
proof -
  have h1: "\<forall>k i n. \<exists>n'. purgload (wf (grid_env 100 [])) k i n = (Inr (), n') \<and> \<not> grid_has_load n' k i"
    by (simp add: grid_defs scope_defs list_ex_iff)
  have h2: "\<forall>f t i n. \<exists>n'. branch_chng_3 (wf (grid_env 100 [])) f t i 1 n = (Inr (), n')
       \<and> grid_is_on n' \<lparr>from_number = f, to_number = t, branch_id = i\<rparr>"
    by (simp add: grid_defs scope_defs)
  have h3: "tbl_enter (grid_env 100 []) bus_A (TemporaryBusLoad bus_A, base_grid [])
     = (Inr (), (\<lparr>context_manager_is_active = True\<rparr>, base_grid [temp_element 0]))"
    by (simp add: grid_defs scope_defs prog_defs)
  have e1: "with_cm (tbl_enter (grid_env 100 []) bus_A) (tbl_exit (grid_env 100 []) bus_A)
        failing_body (TemporaryBusLoad bus_A, base_grid [])
     = (Inl (ExternalError 7), (TemporaryBusLoad bus_A, base_grid []))"
    by (simp add: grid_defs scope_defs prog_defs)
  have e2: "disable_branch (grid_env 100 []) line_12 failing_scope_body (base_grid [])
     = (Inl (ExternalError 7), base_grid [])"
    by (simp add: grid_defs scope_defs prog_defs)
  from scoped_mutations_rolled_back [OF h1 h2 h3, of failing_body line_12 failing_scope_body]
    h1 h2 h3 e1 e2
  show ?thesis by blast
qed

text \<open>
  Claim C9. Called while the scope is inactive, the object raises the usage error and leaves
  the object and the network as they are; called while active it is the one call
  \<open>wf.load_chng_6(bus, "Tm", realar=[real, imag])\<close>. The scope is inactive at construction
  and after an \<open>__exit__\<close> that returned, and active after an \<open>__enter__\<close> that returned.
\<close>

theorem set_power_requires_active_scope:
  "(\<not> context_manager_is_active t \<longrightarrow> tbl_call env b p (t, n) = (Inl usage_error, (t, n))) \<and>
   (context_manager_is_active t \<longrightarrow>
      tbl_call env b p (t, n)
        = on_net (load_chng_6 (wf env) (number b) TEMP_LOAD_ID [Re p, Im p]) (t, n)) \<and>
   \<not> context_manager_is_active (TemporaryBusLoad b) \<and>
   (\<forall>t' n'. tbl_enter env b (t, n) = (Inr (), (t', n')) \<longrightarrow> context_manager_is_active t') \<and>
   (\<forall>t' n'. tbl_exit env b (t, n) = (Inr (), (t', n')) \<longrightarrow> \<not> context_manager_is_active t')"
  by (auto simp: tbl_call_def tbl_enter_def tbl_exit_def TemporaryBusLoad_def set_active_def
      pbind_def on_net_def on_obj_def split: prod.splits sum.splits)

text \<open>
  Claim C9 on the small network: the call before \<open>__enter__\<close> and the call after
  \<open>__exit__\<close> raise and change nothing; the call inside the scope overwrites the power of
  the temporary element.
\<close>

theorem set_power_requires_active_scope_witness:
  "tbl_call (grid_env 100 []) bus_A (Complex 7 3) (TemporaryBusLoad bus_A, base_grid [])
     = (Inl usage_error, (TemporaryBusLoad bus_A, base_grid [])) \<and>
   tbl_call (grid_env 100 []) bus_A (Complex 7 3)
       (\<lparr>context_manager_is_active = True\<rparr>, base_grid [temp_element 0])
     = (Inr (), (\<lparr>context_manager_is_active = True\<rparr>, base_grid [temp_element (Complex 7 3)])) \<and>
   tbl_call (grid_env 100 []) bus_A (Complex 7 3)
       (snd (tbl_exit (grid_env 100 []) bus_A
          (\<lparr>context_manager_is_active = True\<rparr>, base_grid [temp_element 0])))
     = (Inl usage_error, (TemporaryBusLoad bus_A, base_grid []))"
proof -
  have c1: "tbl_call (grid_env 100 []) bus_A (Complex 7 3) (TemporaryBusLoad bus_A, base_grid [])
     = (Inl usage_error, (TemporaryBusLoad bus_A, base_grid []))"
    using set_power_requires_active_scope
      [of "TemporaryBusLoad bus_A" "grid_env 100 []" bus_A "Complex 7 3" "base_grid []"]
    by (simp add: TemporaryBusLoad_def)
  have c2: "tbl_call (grid_env 100 []) bus_A (Complex 7 3)
       (\<lparr>context_manager_is_active = True\<rparr>, base_grid [temp_element 0])
     = (Inr (), (\<lparr>context_manager_is_active = True\<rparr>, base_grid [temp_element (Complex 7 3)]))"
    using set_power_requires_active_scope
      [of "\<lparr>context_manager_is_active = True\<rparr>" "grid_env 100 []" bus_A "Complex 7 3"
          "base_grid [temp_element 0]"]
    by (simp add: grid_defs scope_defs prog_defs)
  have c3: "tbl_call (grid_env 100 []) bus_A (Complex 7 3)
       (snd (tbl_exit (grid_env 100 []) bus_A
          (\<lparr>context_manager_is_active = True\<rparr>, base_grid [temp_element 0])))
     = (Inl usage_error, (TemporaryBusLoad bus_A, base_grid []))"
    by (simp add: grid_defs scope_defs prog_defs)
  from c1 c2 c3 show ?thesis by blast
qed

lemmas init_defs = CapacityAnalyser_init_def buses_headroom_def upper_limit_mva_def
  fdns_is_applicable_def check_base_case_violations_def check_violations_def limits_kwargs_def
  NO_VIOLATIONS_def

text \<open>
  Claim C8. If the violation check of the base case, run right after the solver set-up,
  reports anything but \<open>NO_VIOLATIONS\<close>, then \<open>__init__\<close> raises \<open>RuntimeError\<close> and so does
  the entry point \<open>buses_headroom\<close>; the network state is the one that check left, so no
  contingency scenario was built and no bus was probed, and no result is returned.
\<close>

theorem base_case_violations_abort:
  assumes pf: "-1 \<le> load_pf" "load_pf \<le> 1" "-1 \<le> gen_pf" "gen_pf \<le> 1"
    and solved: "fdns_is_applicable env cname opts n = (Inr applicable, n1)"
    and checked: "check_violations env nl (\<not> applicable) opts n1 = (Inr viol, n2)"
    and violated: "viol \<noteq> NO_VIOLATIONS"
  shows "CapacityAnalyser_init env cname load_p gen_p load_pf gen_pf selected tol opts iters nl cl given n
           = (Inl (RuntimeError ''The base case has '' (Some viol)), n2) \<and>
         buses_headroom env cname load_p gen_p load_pf gen_pf selected tol opts iters nl cl given n
           = (Inl (RuntimeError ''The base case has '' (Some viol)), n2)"
proof -
  have base: "check_base_case_violations env nl (\<not> applicable) opts n1
      = (Inl (RuntimeError ''The base case has '' (Some viol)), n2)"
    using checked violated by (simp add: check_base_case_violations_def pbind_def raise_def)
  have init: "CapacityAnalyser_init env cname load_p gen_p load_pf gen_pf selected tol opts iters
      nl cl given n = (Inl (RuntimeError ''The base case has '' (Some viol)), n2)"
    using pf solved base
    by (simp add: CapacityAnalyser_init_def upper_limit_mva_def pbind_def)
  then show ?thesis by (simp add: buses_headroom_def pbind_def)
qed

text \<open>
  Claim C8 on the small network: a base case load of \<open>40+8j\<close> against a threshold of
  30 MW. The run ends with the error after the single power flow of the base case check.
\<close>

theorem base_case_violations_abort_witness:
  "(-1::real) \<le> 9 / 10 \<and> (9 / 10 :: real) \<le> 1 \<and>
   fdns_is_applicable (grid_env 30 []) ''grid'' [] overloaded_grid = (Inr True, overloaded_grid) \<and>
   check_violations (grid_env 30 []) None (\<not> True) [] overloaded_grid
     = (Inr 1, overloaded_grid\<lparr>g_flows := 1, g_trace := [(Complex 40 8, 1)]\<rparr>) \<and>
   (1::nat) \<noteq> NO_VIOLATIONS \<and>
   buses_headroom (grid_env 30 []) ''grid'' 50 50 (9 / 10) (9 / 10) None 5 [] 10 None None None
       overloaded_grid
     = (Inl (RuntimeError ''The base case has '' (Some 1)),
        overloaded_grid\<lparr>g_flows := 1, g_trace := [(Complex 40 8, 1)]\<rparr>)"
proof -
  have h1: "(-1::real) \<le> 9 / 10" and h2: "(9 / 10 :: real) \<le> 1" by simp_all
  have h3: "fdns_is_applicable (grid_env 30 []) ''grid'' [] overloaded_grid
      = (Inr True, overloaded_grid)"
    by (simp add: init_defs grid_defs prog_defs)
  have h4: "check_violations (grid_env 30 []) None (\<not> True) [] overloaded_grid
     = (Inr 1, overloaded_grid\<lparr>g_flows := 1, g_trace := [(Complex 40 8, 1)]\<rparr>)"
    by (simp add: init_defs grid_defs scope_defs prog_defs)
  have h5: "(1::nat) \<noteq> NO_VIOLATIONS" by (simp add: NO_VIOLATIONS_def)
  from base_case_violations_abort [OF h1 h2 h1 h2 h3 h4 h5, of 50 50 None 5 10 None None]
    h1 h2 h3 h4 h5
  show ?thesis by blast
qed

end
